theory Spec2Isabelle
  imports Complex_Main "HOL-Library.Sublist" "HOL-Library.AList" "HOL-Library.Monad_Syntax"
begin

section \<open>Values shared by all components\<close>

text \<open>
  The exceptions the program can leave uncaught. Each raise of the source (its own or one of
  a library routine it calls) is the \<open>Inl\<close> branch of a result of type \<open>error + 'a\<close>.
\<close>

datatype error =
    FileNotFoundError | NotADirectoryError | IsADirectoryError | PermissionError
  | JSONDecodeError | UnicodeDecodeError | KeyError | TypeError | ValueError
  | OverflowError | AttributeError | OSError

text \<open>
  A Python float: a finite value, idealised as an exact real (rounding is not modelled: the
  properties verified below concern which readings are aggregated and how), or one of the
  three special values. Addition and division by a positive count treat the special values
  as the machine does.
\<close>

datatype pyfloat = Finite real | PosInf | NegInf | NaN

fun fadd :: "pyfloat \<Rightarrow> pyfloat \<Rightarrow> pyfloat" where
  "fadd (Finite a) (Finite b) = Finite (a + b)"
| "fadd NaN y = NaN"
| "fadd x NaN = NaN"
| "fadd PosInf NegInf = NaN"
| "fadd NegInf PosInf = NaN"
| "fadd PosInf y = PosInf"
| "fadd x PosInf = PosInf"
| "fadd NegInf y = NegInf"
| "fadd x NegInf = NegInf"

fun fdiv_count :: "pyfloat \<Rightarrow> nat \<Rightarrow> pyfloat" where
  "fdiv_count (Finite a) n = Finite (a / real n)"
| "fdiv_count x n = x"

definition fsum :: "pyfloat list \<Rightarrow> pyfloat" where
  "fsum xs = foldl fadd (Finite 0) xs"

text \<open>
  The magnitude from which a conversion to float leaves the finite range: an integer that
  large makes \<open>float\<close> raise OverflowError, a decimal string that large gives an infinity.
\<close>

definition float_overflow :: int where
  "float_overflow = 2 ^ 1024 - 2 ^ 970"

text \<open>
  What \<open>json.load\<close> yields: \<open>None\<close>, a bool, an int, a float, a string, a list or a dict.
  A dict is an association list (looked up with \<open>map_of\<close>; its keys are distinct, as the
  keys of a dict are).
\<close>

datatype json =
    JNull | JBool bool | JInt int | JFloat pyfloat | JStr string
  | JArr "json list" | JObj "(string \<times> json) list"

subsection \<open>The file system\<close>

text \<open>
  A regular file is represented by what \<open>open(p, "r")\<close> followed by \<open>json.load\<close> makes of
  it: either the exception that is raised, or the decoded value. The exception is
  JSONDecodeError when the file holds text that is not a JSON document (empty, cut short,
  garbage), and UnicodeDecodeError when its bytes are not text in the encoding; \<open>Undecodable\<close>
  names the first case. A directory carries a flag telling whether it may be listed, and its
  entries in the order the operating system lists them. A path is the list of its components
  below the root node.
\<close>

datatype contents = Unloadable error | Json json

abbreviation Undecodable :: contents where
  "Undecodable \<equiv> Unloadable JSONDecodeError"

datatype node = File contents | Dir bool "(string \<times> node) list"

type_synonym path = "string list"

fun child :: "node \<Rightarrow> string \<Rightarrow> node option" where
  "child (File c) name = None"
| "child (Dir r es) name = map_of es name"

fun lookup :: "node \<Rightarrow> path \<Rightarrow> node option" where
  "lookup n [] = Some n"
| "lookup n (c # cs) = (case child n c of None \<Rightarrow> None | Some m \<Rightarrow> lookup m cs)"

definition path_exists :: "node \<Rightarrow> path \<Rightarrow> bool" where
  "path_exists fs p = (lookup fs p \<noteq> None)"

definition is_dir :: "node \<Rightarrow> path \<Rightarrow> bool" where
  "is_dir fs p = (case lookup fs p of Some (Dir r es) \<Rightarrow> True | _ \<Rightarrow> False)"

definition listdir :: "node \<Rightarrow> path \<Rightarrow> error + string list" where
  "listdir fs p =
     (case lookup fs p of
        None \<Rightarrow> Inl FileNotFoundError
      | Some (File c) \<Rightarrow> Inl NotADirectoryError
      | Some (Dir r es) \<Rightarrow> if r then Inr (map fst es) else Inl PermissionError)"

text \<open>\<open>open(p, "r")\<close> followed by \<open>json.load\<close>, on a path that exists.\<close>

definition open_read :: "node \<Rightarrow> path \<Rightarrow> error + contents" where
  "open_read fs p =
     (case lookup fs p of
        None \<Rightarrow> Inl FileNotFoundError
      | Some (Dir r es) \<Rightarrow> Inl IsADirectoryError
      | Some (File c) \<Rightarrow> Inr c)"

definition json_load :: "contents \<Rightarrow> error + json" where
  "json_load c = (case c of Unloadable e \<Rightarrow> Inl e | Json v \<Rightarrow> Inr v)"

text \<open>
  Storing a file: every directory on the way must exist, and the last component must not
  name a directory. The entry is replaced in place, or added at the end of the listing.
\<close>

fun store :: "node \<Rightarrow> path \<Rightarrow> contents \<Rightarrow> error + node" where
  "store n [] c = (case n of File old \<Rightarrow> Inr (File c) | Dir r es \<Rightarrow> Inl IsADirectoryError)"
| "store n (name # cs) c =
     (case n of
        File old \<Rightarrow> Inl NotADirectoryError
      | Dir r es \<Rightarrow>
          (case map_of es name of
             None \<Rightarrow> (if cs = [] then Inr (Dir r (AList.update name (File c) es))
                      else Inl FileNotFoundError)
           | Some m \<Rightarrow>
               (case store m cs c of
                  Inl e \<Rightarrow> Inl e
                | Inr m' \<Rightarrow> Inr (Dir r (AList.update name m' es)))))"

section \<open>Dates and times\<close>

text \<open>
  A \<open>datetime\<close> object with its fields. Subtracting two of them goes through the proleptic
  Gregorian ordinal of the day, as the library does; the difference is counted in
  microseconds.
\<close>

record datetime =
  year :: int
  month :: int
  day :: int
  hour :: int
  minute :: int
  second :: int
  microsecond :: int

definition is_leap :: "int \<Rightarrow> bool" where
  "is_leap y = (y mod 4 = 0 \<and> (y mod 100 \<noteq> 0 \<or> y mod 400 = 0))"

definition days_in_month :: "int \<Rightarrow> int \<Rightarrow> int" where
  "days_in_month y m =
     (if m = 2 then (if is_leap y then 29 else 28)
      else if m = 4 \<or> m = 6 \<or> m = 9 \<or> m = 11 then 30 else 31)"

definition days_before_year :: "int \<Rightarrow> int" where
  "days_before_year y =
     (let p = y - 1 in p * 365 + p div 4 + p div 400 - p div 100)"

definition days_before_month :: "int \<Rightarrow> int \<Rightarrow> int" where
  "days_before_month y m = sum_list (map (days_in_month y) [1..m - 1])"

definition ymd2ord :: "int \<Rightarrow> int \<Rightarrow> int \<Rightarrow> int" where
  "ymd2ord y m d = days_before_year y + days_before_month y m + d"

definition to_microseconds :: "datetime \<Rightarrow> int" where
  "to_microseconds t =
     ((ymd2ord (year t) (month t) (day t) * 86400
        + hour t * 3600 + minute t * 60 + second t) * 1000000
      + microsecond t)"

text \<open>\<open>timedelta(minutes=1)\<close>, in microseconds.\<close>

definition one_minute :: int where
  "one_minute = 60 * 1000000"

subsection \<open>Parsing and printing the layout \<open>%Y-%m-%d %H:%M:%S\<close>\<close>

text \<open>
  \<open>datetime.strptime\<close> for this layout: a year of exactly four digits, the other fields of
  one or two digits (the day may also be a space and one digit from 1 to 9), the separators
  \<open>-\<close>, \<open>-\<close>, white space, \<open>:\<close>, \<open>:\<close>, nothing after the seconds, and every field in the
  range of a valid date. Anything else is a ValueError. A character is its code point below
  256; white space is what \<open>str.isspace\<close> accepts there.
\<close>

definition is_digit :: "char \<Rightarrow> bool" where
  "is_digit c = (48 \<le> (of_char c :: int) \<and> (of_char c :: int) \<le> 57)"

definition is_space :: "char \<Rightarrow> bool" where
  "is_space c =
     (let n = (of_char c :: int)
      in (9 \<le> n \<and> n \<le> 13) \<or> (28 \<le> n \<and> n \<le> 32) \<or> n = 133 \<or> n = 160)"

definition digit_val :: "char \<Rightarrow> int" where
  "digit_val c = of_char c - 48"

definition num_of :: "string \<Rightarrow> int" where
  "num_of ds = foldl (\<lambda>n c. 10 * n + digit_val c) 0 ds"

definition field :: "nat \<Rightarrow> nat \<Rightarrow> string \<Rightarrow> (int \<times> string) option" where
  "field lo hi s =
     (let ds = takeWhile is_digit s
      in if lo \<le> length ds \<and> length ds \<le> hi then Some (num_of ds, dropWhile is_digit s)
         else None)"

definition expect :: "char \<Rightarrow> string \<Rightarrow> string option" where
  "expect c s = (case s of [] \<Rightarrow> None | x # r \<Rightarrow> if x = c then Some r else None)"

definition spaces :: "string \<Rightarrow> string option" where
  "spaces s = (if takeWhile is_space s = [] then None else Some (dropWhile is_space s))"

definition day_field :: "string \<Rightarrow> (int \<times> string) option" where
  "day_field s =
     (case s of
        c # d # r \<Rightarrow>
          if c = CHR '' '' \<and> is_digit d \<and> d \<noteq> CHR ''0'' then Some (digit_val d, r)
          else field 1 2 s
      | _ \<Rightarrow> field 1 2 s)"

definition parse_fields :: "string \<Rightarrow> datetime option" where
  "parse_fields s =
     do {
       (y, s1) \<leftarrow> field 4 4 s;
       s2 \<leftarrow> expect CHR ''-'' s1;
       (m, s3) \<leftarrow> field 1 2 s2;
       s4 \<leftarrow> expect CHR ''-'' s3;
       (d, s5) \<leftarrow> day_field s4;
       s6 \<leftarrow> spaces s5;
       (H, s7) \<leftarrow> field 1 2 s6;
       s8 \<leftarrow> expect CHR '':'' s7;
       (M, s9) \<leftarrow> field 1 2 s8;
       s10 \<leftarrow> expect CHR '':'' s9;
       (S, s11) \<leftarrow> field 1 2 s10;
       if s11 = [] then
         Some \<lparr>year = y, month = m, day = d, hour = H, minute = M, second = S,
                microsecond = 0\<rparr>
       else None
     }"

definition valid_datetime :: "datetime \<Rightarrow> bool" where
  "valid_datetime t =
     (1 \<le> year t \<and> year t \<le> 9999 \<and> 1 \<le> month t \<and> month t \<le> 12
      \<and> 1 \<le> day t \<and> day t \<le> days_in_month (year t) (month t)
      \<and> 0 \<le> hour t \<and> hour t \<le> 23 \<and> 0 \<le> minute t \<and> minute t \<le> 59
      \<and> 0 \<le> second t \<and> second t \<le> 59 \<and> 0 \<le> microsecond t \<and> microsecond t \<le> 999999)"

definition strptime :: "string \<Rightarrow> error + datetime" where
  "strptime s =
     (case parse_fields s of
        None \<Rightarrow> Inl ValueError
      | Some t \<Rightarrow> if valid_datetime t then Inr t else Inl ValueError)"

definition digit_char :: "int \<Rightarrow> char" where
  "digit_char n = char_of (48 + n mod 10)"

definition pad2 :: "int \<Rightarrow> string" where
  "pad2 n = [digit_char (n div 10), digit_char n]"

definition pad4 :: "int \<Rightarrow> string" where
  "pad4 n = [digit_char (n div 1000), digit_char (n div 100), digit_char (n div 10), digit_char n]"

definition strftime :: "datetime \<Rightarrow> string" where
  "strftime t =
     pad4 (year t) @ ''-'' @ pad2 (month t) @ ''-'' @ pad2 (day t) @ '' ''
       @ pad2 (hour t) @ '':'' @ pad2 (minute t) @ '':'' @ pad2 (second t)"

section \<open>Staleness filter\<close>

text \<open>
  \<open>is_updated\<close> receives whatever the peer's file holds under \<open>timestamp\<close>; \<open>strptime\<close>
  refuses an argument that is not a string with a TypeError. The first argument is the
  reading of the clock that \<open>datetime.now()\<close> makes inside the call.
\<close>

definition is_updated :: "datetime \<Rightarrow> json \<Rightarrow> error + bool" where
  "is_updated current_time timestamp =
     (case timestamp of
        JStr s \<Rightarrow>
          (case strptime s of
             Inl e \<Rightarrow> Inl e
           | Inr data_timestamp \<Rightarrow>
               (let time_diff = to_microseconds current_time - to_microseconds data_timestamp
                in Inr (time_diff < one_minute)))
      | _ \<Rightarrow> Inl TypeError)"

section \<open>Operations on decoded values\<close>

text \<open>
  The Python operators the program applies to what it decoded, with their behaviour on every
  kind of value: \<open>key in v\<close> is a key test on a dict, an element test on a list, a substring
  test on a string and a TypeError elsewhere; \<open>v[key]\<close> with a string key is a KeyError on
  a dict without the key and a TypeError on anything that is not a dict.
\<close>

definition py_contains :: "string \<Rightarrow> json \<Rightarrow> error + bool" where
  "py_contains key v =
     (case v of
        JObj kvs \<Rightarrow> Inr (map_of kvs key \<noteq> None)
      | JArr xs \<Rightarrow> Inr (JStr key \<in> set xs)
      | JStr s \<Rightarrow> Inr (sublist key s)
      | _ \<Rightarrow> Inl TypeError)"

definition py_getitem :: "json \<Rightarrow> string \<Rightarrow> error + json" where
  "py_getitem v key =
     (case v of
        JObj kvs \<Rightarrow> (case map_of kvs key of None \<Rightarrow> Inl KeyError | Some x \<Rightarrow> Inr x)
      | _ \<Rightarrow> Inl TypeError)"

text \<open>
  \<open>float(s)\<close> on a string: surrounding white space is dropped (the ASCII white space and,
  above the ASCII range, what \<open>str.isspace\<close> accepts; not the separators 28 to 31); an
  underscore may stand only between two digits; then an optional sign and either \<open>inf\<close>,
  \<open>infinity\<close> or \<open>nan\<close> in any case, or a decimal number (digits with an optional fractional
  part, at least one digit, and an optional exponent), which becomes an infinity when it is
  beyond the finite range. Anything else is a ValueError.
\<close>

definition is_float_space :: "char \<Rightarrow> bool" where
  "is_float_space c =
     (let n = (of_char c :: int)
      in (9 \<le> n \<and> n \<le> 13) \<or> n = 32 \<or> n = 133 \<or> n = 160)"

definition strip :: "string \<Rightarrow> string" where
  "strip s = rev (dropWhile is_float_space (rev (dropWhile is_float_space s)))"

fun underscores_ok :: "char \<Rightarrow> string \<Rightarrow> bool" where
  "underscores_ok prev [] = (prev \<noteq> CHR ''_'')"
| "underscores_ok prev (c # cs) =
     ((if c = CHR ''_'' then is_digit prev
       else if prev = CHR ''_'' then is_digit c else True)
      \<and> underscores_ok c cs)"

definition to_lower :: "char \<Rightarrow> char" where
  "to_lower c =
     (if 65 \<le> (of_char c :: int) \<and> (of_char c :: int) \<le> 90
      then char_of ((of_char c :: int) + 32) else c)"

definition split_sign :: "string \<Rightarrow> bool \<times> string" where
  "split_sign t =
     (case t of
        [] \<Rightarrow> (False, [])
      | c # r \<Rightarrow> if c = CHR ''-'' then (True, r)
                 else if c = CHR ''+'' then (False, r) else (False, t))"

definition exponent :: "string \<Rightarrow> int option" where
  "exponent r =
     (case r of
        [] \<Rightarrow> Some 0
      | c # r' \<Rightarrow>
          if c = CHR ''e'' \<or> c = CHR ''E'' then
            (let (neg, ds) = split_sign r'
             in if ds \<noteq> [] \<and> list_all is_digit ds
                then Some (if neg then - num_of ds else num_of ds) else None)
          else None)"

definition scale :: "real \<Rightarrow> int \<Rightarrow> real" where
  "scale m e = (if 0 \<le> e then m * 10 ^ nat e else m / 10 ^ nat (- e))"

definition decimal :: "string \<Rightarrow> real option" where
  "decimal s =
     (let ip = takeWhile is_digit s;
          r = dropWhile is_digit s;
          (fp, r2) = (case r of
                        [] \<Rightarrow> ([], [])
                      | c # r' \<Rightarrow>
                          if c = CHR ''.'' then (takeWhile is_digit r', dropWhile is_digit r')
                          else ([], r))
      in if ip = [] \<and> fp = [] then None
         else
           (case exponent r2 of
              None \<Rightarrow> None
            | Some e \<Rightarrow>
                Some (scale (real_of_int (num_of ip)
                             + real_of_int (num_of fp) / 10 ^ length fp) e)))"

definition to_float :: "real \<Rightarrow> pyfloat" where
  "to_float x =
     (if real_of_int float_overflow \<le> x then PosInf
      else if x \<le> - real_of_int float_overflow then NegInf
      else Finite x)"

definition float_of_string :: "string \<Rightarrow> error + pyfloat" where
  "float_of_string s =
     (let t = strip s
      in if \<not> underscores_ok (CHR 0x00) t then Inl ValueError
         else
           (let (neg, body) = split_sign (filter (\<lambda>c. c \<noteq> CHR ''_'') t);
                word = map to_lower body
            in if word = ''inf'' \<or> word = ''infinity'' then Inr (if neg then NegInf else PosInf)
               else if word = ''nan'' then Inr NaN
               else
                 (case decimal body of
                    None \<Rightarrow> Inl ValueError
                  | Some x \<Rightarrow> Inr (to_float (if neg then - x else x)))))"

text \<open>
  \<open>float(v)\<close> on a decoded value: an int converts unless it is too large (OverflowError),
  a float is itself, a bool is 1.0 or 0.0, a string is parsed, anything else is a TypeError.
\<close>

definition py_float :: "json \<Rightarrow> error + pyfloat" where
  "py_float v =
     (case v of
        JInt n \<Rightarrow> if float_overflow \<le> \<bar>n\<bar> then Inl OverflowError
                  else Inr (Finite (real_of_int n))
      | JFloat x \<Rightarrow> Inr x
      | JBool b \<Rightarrow> Inr (Finite (if b then 1 else 0))
      | JStr s \<Rightarrow> float_of_string s
      | _ \<Rightarrow> Inl TypeError)"

text \<open>\<open>xs[start:]\<close>: a negative start counts from the end, and both ends are clipped.\<close>

definition slice_from :: "'a list \<Rightarrow> int \<Rightarrow> 'a list" where
  "slice_from xs start =
     (let n = int (length xs);
          s = (if start < 0 then max (start + n) 0 else min start n)
      in drop (nat s) xs)"

text \<open>\<open>v.append(x)\<close>: only a list has the method.\<close>

definition py_append :: "json \<Rightarrow> json \<Rightarrow> error + json list" where
  "py_append v x = (case v of JArr xs \<Rightarrow> Inr (xs @ [x]) | _ \<Rightarrow> Inl AttributeError)"

section \<open>Peer enumerator\<close>

fun users_loop :: "node \<Rightarrow> path \<Rightarrow> string list \<Rightarrow> string list \<Rightarrow> string list" where
  "users_loop fs datasite_path [] users = users"
| "users_loop fs datasite_path (entry # entries) users =
     (if is_dir fs (datasite_path @ [entry])
      then users_loop fs datasite_path entries (users @ [entry])
      else users_loop fs datasite_path entries users)"

definition network_participants :: "node \<Rightarrow> path \<Rightarrow> error + string list" where
  "network_participants fs datasite_path =
     (case listdir fs datasite_path of
        Inl e \<Rightarrow> Inl e
      | Inr entries \<Rightarrow> Inr (users_loop fs datasite_path entries []))"

section \<open>Network aggregator\<close>

definition tracker_file :: "path \<Rightarrow> string \<Rightarrow> path" where
  "tracker_file datasites_path peer =
     datasites_path @ [peer, ''api_data'', ''cpu_tracker'', ''cpu_tracker.json'']"

text \<open>
  One turn of the loop of \<open>get_network_cpu_mean\<close> for one peer, given the reading of the
  clock that \<open>is_updated\<close> makes in this turn: \<open>Inr None\<close> when the peer is passed over
  (\<open>continue\<close>, or the condition of the \<open>if\<close> is false), \<open>Inr (Some c)\<close> when its reading
  \<open>c\<close> is added, \<open>Inl e\<close> when the turn raises \<open>e\<close>. Only JSONDecodeError is caught, and only
  around \<open>json.load\<close>.
\<close>

definition peer_sample :: "node \<Rightarrow> path \<Rightarrow> datetime \<Rightarrow> string \<Rightarrow> error + pyfloat option" where
  "peer_sample fs datasites_path now peer =
     (let f = tracker_file datasites_path peer
      in if \<not> path_exists fs f then Inr None
         else
           (case open_read fs f of
              Inl e \<Rightarrow> Inl e
            | Inr c \<Rightarrow>
                (case json_load c of
                   Inl e \<Rightarrow> if e = JSONDecodeError then Inr None else Inl e
                 | Inr peer_data \<Rightarrow>
                     (case py_contains ''timestamp'' peer_data of
                        Inl e \<Rightarrow> Inl e
                      | Inr False \<Rightarrow> Inr None
                      | Inr True \<Rightarrow>
                          (case py_getitem peer_data ''timestamp'' of
                             Inl e \<Rightarrow> Inl e
                           | Inr ts \<Rightarrow>
                               (case is_updated now ts of
                                  Inl e \<Rightarrow> Inl e
                                | Inr False \<Rightarrow> Inr None
                                | Inr True \<Rightarrow>
                                    (case py_getitem peer_data ''cpu'' of
                                       Inl e \<Rightarrow> Inl e
                                     | Inr v \<Rightarrow>
                                         (case py_float v of
                                            Inl e \<Rightarrow> Inl e
                                          | Inr x \<Rightarrow> Inr (Some x)))))))))"

text \<open>
  The loop over the peers with its three accumulators. \<open>clock i\<close> is the reading of the clock
  in turn \<open>i\<close> of the loop (each turn reads the clock at most once, inside \<open>is_updated\<close>).
  The sum starts as the int 0, which added to a float gives that float.
\<close>

fun peers_loop ::
  "node \<Rightarrow> path \<Rightarrow> (nat \<Rightarrow> datetime) \<Rightarrow> nat \<Rightarrow> string list \<Rightarrow> pyfloat \<Rightarrow> nat \<Rightarrow> string list
     \<Rightarrow> error + (pyfloat \<times> nat \<times> string list)" where
  "peers_loop fs datasites_path clock i [] aggregated_usage aggregated_peers active_peers =
     Inr (aggregated_usage, aggregated_peers, active_peers)"
| "peers_loop fs datasites_path clock i (peer # peers) aggregated_usage aggregated_peers active_peers =
     (case peer_sample fs datasites_path (clock i) peer of
        Inl e \<Rightarrow> Inl e
      | Inr None \<Rightarrow>
          peers_loop fs datasites_path clock (Suc i) peers
            aggregated_usage aggregated_peers active_peers
      | Inr (Some x) \<Rightarrow>
          peers_loop fs datasites_path clock (Suc i) peers
            (fadd aggregated_usage x) (aggregated_peers + 1) (active_peers @ [peer]))"

text \<open>
  The result is the pair of the mean and the active peers; the mean is the float
  \<open>aggregated_usage / aggregated_peers\<close>, or the int \<open>-1\<close> it was initialised with.
\<close>

definition get_network_cpu_mean ::
  "node \<Rightarrow> (nat \<Rightarrow> datetime) \<Rightarrow> path \<Rightarrow> string list \<Rightarrow> error + (json \<times> string list)" where
  "get_network_cpu_mean fs clock datasites_path peers =
     (case peers_loop fs datasites_path clock 0 peers (Finite 0) 0 [] of
        Inl e \<Rightarrow> Inl e
      | Inr (aggregated_usage, aggregated_peers, active_peers) \<Rightarrow>
          Inr (if aggregated_peers > 0 then JFloat (fdiv_count aggregated_usage aggregated_peers)
               else JInt (- 1),
               active_peers))"

section \<open>Rolling history store\<close>

text \<open>
  The sample is whatever number the caller passes: the program passes the mean it computed,
  a float, or the int \<open>-1\<close>.
\<close>

definition history_entry :: "json \<Rightarrow> string \<Rightarrow> json" where
  "history_entry new_sample timestamp_str =
     JObj [(''cpu'', new_sample), (''timestamp'', JStr timestamp_str)]"

definition history_document :: "json list \<Rightarrow> string list \<Rightarrow> json" where
  "history_document history peers =
     JObj [(''items'', JArr history), (''peers'', JArr (map JStr peers))]"

text \<open>
  The first half of \<open>truncate_file\<close>: the history to be written, or the exception raised while
  loading the previous one. Nothing is caught here.
\<close>

definition new_history :: "node \<Rightarrow> path \<Rightarrow> int \<Rightarrow> json \<Rightarrow> error + json list" where
  "new_history fs file_path max_items entry =
     (if path_exists fs file_path then
        (case open_read fs file_path of
           Inl e \<Rightarrow> Inl e
         | Inr c \<Rightarrow>
             (case json_load c of
                Inl e \<Rightarrow> Inl e
              | Inr historical_data \<Rightarrow>
                  (case py_getitem historical_data ''items'' of
                     Inl e \<Rightarrow> Inl e
                   | Inr items \<Rightarrow>
                       (case py_append items entry of
                          Inl e \<Rightarrow> Inl e
                        | Inr history \<Rightarrow>
                            Inr (if int (length history) > max_items
                                 then slice_from history (- max_items)
                                 else history)))))
      else Inr [entry])"

text \<open>
  What the operating system does with the request to write the output file: it accepts it,
  or it refuses to open the file for writing (no permission), or it opens the file and then
  refuses the data (the disk is full, for instance).
\<close>

datatype disk = Accepting | RefusingOpen | RefusingWrite

text \<open>
  \<open>truncate_file\<close> returns its outcome together with the file system it leaves behind.
  \<open>now\<close> is the reading of the UTC clock. Opening the file in mode \<open>w\<close> empties it (or
  creates it empty) before \<open>json.dump\<close> writes. When the data is refused, OSError is raised
  and the file holds what was written until then: nothing, or the beginning of the new
  document cut short, in either case text that is not a JSON document.
\<close>

definition truncate_file ::
  "disk \<Rightarrow> node \<Rightarrow> datetime \<Rightarrow> path \<Rightarrow> int \<Rightarrow> json \<Rightarrow> string list \<Rightarrow> (error + unit) \<times> node" where
  "truncate_file disk fs now file_path max_items new_sample peers =
     (let timestamp_str = strftime now
      in case new_history fs file_path max_items (history_entry new_sample timestamp_str) of
           Inl e \<Rightarrow> (Inl e, fs)
         | Inr history \<Rightarrow>
             if disk = RefusingOpen then (Inl PermissionError, fs)
             else
               (case store fs file_path Undecodable of
                  Inl e \<Rightarrow> (Inl e, fs)
                | Inr opened \<Rightarrow>
                    if disk = RefusingWrite then (Inl OSError, opened)
                    else
                      (case store opened file_path (Json (history_document history peers)) of
                         Inl e \<Rightarrow> (Inl e, opened)
                       | Inr written \<Rightarrow> (Inr (), written))))"

text \<open>
  Successive cycles on the same output file, each with its own clock reading, sample and
  peers, every write accepted by the operating system; the run stops at the first cycle that raises.
\<close>

fun cycles ::
  "node \<Rightarrow> path \<Rightarrow> int \<Rightarrow> (datetime \<times> json \<times> string list) list \<Rightarrow> (error + unit) \<times> node" where
  "cycles fs file_path max_items [] = (Inr (), fs)"
| "cycles fs file_path max_items ((now, new_sample, peers) # rest) =
     (case truncate_file Accepting fs now file_path max_items new_sample peers of
        (Inl e, fs') \<Rightarrow> (Inl e, fs')
      | (Inr u, fs') \<Rightarrow> cycles fs' file_path max_items rest)"

section \<open>Notions used to state the properties\<close>

fun node_is_dir :: "node \<Rightarrow> bool" where
  "node_is_dir (Dir r es) = True"
| "node_is_dir (File c) = False"

text \<open>
  The peers whose turn adds a reading, each with that reading, in the order of the list;
  turn \<open>i\<close> is the turn of the first peer of the list.
\<close>

fun readings :: "node \<Rightarrow> path \<Rightarrow> (nat \<Rightarrow> datetime) \<Rightarrow> nat \<Rightarrow> string list \<Rightarrow> (string \<times> pyfloat) list" where
  "readings fs datasites_path clock i [] = []"
| "readings fs datasites_path clock i (peer # peers) =
     (case peer_sample fs datasites_path (clock i) peer of
        Inr (Some x) \<Rightarrow> (peer, x) # readings fs datasites_path clock (Suc i) peers
      | _ \<Rightarrow> readings fs datasites_path clock (Suc i) peers)"

text \<open>No turn of the loop raises.\<close>

fun raises_nowhere :: "node \<Rightarrow> path \<Rightarrow> (nat \<Rightarrow> datetime) \<Rightarrow> nat \<Rightarrow> string list \<Rightarrow> bool" where
  "raises_nowhere fs datasites_path clock i [] = True"
| "raises_nowhere fs datasites_path clock i (peer # peers) =
     (\<not> isl (peer_sample fs datasites_path (clock i) peer)
      \<and> raises_nowhere fs datasites_path clock (Suc i) peers)"

text \<open>A clock that shows the same time in every turn, and a clock with turn \<open>j\<close> left out.\<close>

definition frozen :: "datetime \<Rightarrow> nat \<Rightarrow> datetime" where
  "frozen t i = t"

definition skip_turn :: "nat \<Rightarrow> (nat \<Rightarrow> datetime) \<Rightarrow> nat \<Rightarrow> datetime" where
  "skip_turn j clock i = (if i < j then clock i else clock (Suc i))"

text \<open>A field of the document stored at a path, if there is one.\<close>

definition stored_field :: "node \<Rightarrow> path \<Rightarrow> string \<Rightarrow> json option" where
  "stored_field fs p key =
     (case lookup fs p of
        Some (File (Json v)) \<Rightarrow> (case py_getitem v key of Inr x \<Rightarrow> Some x | Inl e \<Rightarrow> None)
      | _ \<Rightarrow> None)"

text \<open>The entry that a cycle appends.\<close>

fun entry_of :: "datetime \<times> json \<times> string list \<Rightarrow> json" where
  "entry_of (now, new_sample, peers) = history_entry new_sample (strftime now)"

subsection \<open>Example data\<close>

definition at_time :: "int \<Rightarrow> int \<Rightarrow> int \<Rightarrow> datetime" where
  "at_time h m s =
     \<lparr>year = 2024, month = 10, day = 5, hour = h, minute = m, second = s, microsecond = 0\<rparr>"

definition peer_dir :: "contents \<Rightarrow> node" where
  "peer_dir c =
     Dir True [(''api_data'', Dir True [(''cpu_tracker'', Dir True [(''cpu_tracker.json'', File c)])])]"

definition telemetry :: "int \<Rightarrow> string \<Rightarrow> contents" where
  "telemetry x ts = Json (JObj [(''cpu'', JInt x), (''timestamp'', JStr ts)])"

text \<open>Three peers, the second with a file that is not JSON; a regular file beside them.\<close>

definition datasites_abc :: node where
  "datasites_abc =
     Dir True
       [(''A'', peer_dir (telemetry 10 ''2024-10-05 14:00:25'')),
        (''B'', peer_dir Undecodable),
        (''notes.txt'', File Undecodable),
        (''C'', peer_dir (telemetry 20 ''2024-10-05 14:00:00''))]"

text \<open>The same with the file of the second peer holding bytes that are not text.\<close>

definition datasites_bytes :: node where
  "datasites_bytes =
     Dir True
       [(''A'', peer_dir (telemetry 10 ''2024-10-05 14:00:25'')),
        (''B'', peer_dir (Unloadable UnicodeDecodeError)),
        (''C'', peer_dir (telemetry 20 ''2024-10-05 14:00:00''))]"

text \<open>A single peer whose timestamp is not in the layout.\<close>

definition datasites_bad_stamp :: node where
  "datasites_bad_stamp = Dir True [(''A'', peer_dir (telemetry 10 ''yesterday''))]"

text \<open>A fresh valid peer, then one with a malformed timestamp, and one without \<open>cpu\<close>.\<close>

definition datasites_faulty :: node where
  "datasites_faulty =
     Dir True
       [(''A'', peer_dir (telemetry 10 ''2024-10-05 14:00:25'')),
        (''B'', peer_dir (telemetry 20 ''05/10/2024 14:00'')),
        (''C'', peer_dir (Json (JObj [(''timestamp'', JStr ''2024-10-05 14:00:25'')])))]"

definition unreadable_root :: node where
  "unreadable_root = Dir True [(''datasites'', Dir False [(''A'', Dir True [])])]"

definition public_dir :: "contents \<Rightarrow> node" where
  "public_dir c = Dir True [(''cpu_tracker.json'', File c)]"

definition old_history :: contents where
  "old_history =
     Json (history_document [history_entry (JInt 10) ''2024-10-05 13:00:00'',
                             history_entry (JInt 20) ''2024-10-05 13:10:00''] [''old''])"

text \<open>The output file in its directory, and four cycles with the samples 10, 20, 30, 40.\<close>

definition history_path :: path where
  "history_path = [''cpu_tracker.json'']"

definition four_cycles :: "(datetime \<times> json \<times> string list) list" where
  "four_cycles =
     [(at_time 14 0 0, JInt 10, [''x'']), (at_time 14 1 0, JInt 20, [''x'']),
      (at_time 14 2 0, JInt 30, [''x'']), (at_time 14 3 0, JInt 40, [''x''])]"

section \<open>Printing a time and reading it back\<close>

text \<open>
  Every valid time, printed by \<open>strftime\<close>, is a string that \<open>strptime\<close> accepts, and
  parsing gives the time back to the second. So the strings the parser accepts include every
  timestamp in the zero-padded layout.
\<close>

lemma of_char_digit_char: "(of_char (digit_char n) :: int) = 48 + n mod 10"
proof -
  have "(48 + n mod 10) mod 256 = 48 + n mod 10"
    by (rule mod_pos_pos_trivial) (use pos_mod_bound [of 10 n] pos_mod_sign [of 10 n] in linarith)+
  then show ?thesis by (simp add: digit_char_def)
qed

lemma is_digit_digit_char: "is_digit (digit_char n)"
  using pos_mod_bound [of 10 n] pos_mod_sign [of 10 n]
  by (simp add: is_digit_def of_char_digit_char)

lemma not_is_space_digit_char: "\<not> is_space (digit_char n)"
proof -
  define k where "k = n mod 10"
  have k: "0 \<le> k" "k < 10"
    by (simp_all add: k_def)
  have "(of_char (digit_char n) :: int) = 48 + k"
    by (simp add: of_char_digit_char k_def)
  with k show ?thesis
    by (simp add: is_space_def Let_def)
qed

lemma digit_char_not_space: "digit_char n \<noteq> CHR '' ''"
proof
  assume "digit_char n = CHR '' ''"
  then have "(of_char (digit_char n) :: int) = of_char CHR '' ''" by simp
  then show False
    using pos_mod_sign [of 10 n] by (simp add: of_char_digit_char)
qed

lemma digit_val_digit_char: "digit_val (digit_char n) = n mod 10"
  by (simp add: digit_val_def of_char_digit_char)

lemma separators: "\<not> is_digit CHR ''-''" "\<not> is_digit CHR '':''" "\<not> is_digit CHR '' ''" "is_space CHR '' ''"
  by (simp_all add: is_digit_def is_space_def Let_def)

lemma num_of_pad2: "0 \<le> n \<Longrightarrow> n < 100 \<Longrightarrow> num_of (pad2 n) = n"
  by (simp add: num_of_def pad2_def digit_val_digit_char)

lemma num_of_pad4: 
  assumes "0 \<le> n" and "n < 10000"
  shows "num_of (pad4 n) = n"
proof -
  define a where "a = n div 10"
  define b where "b = a div 10"
  define c where "c = b div 10"
  have a100: "n div 100 = b"
    using zdiv_zmult2_eq [of 10 n 10] by (simp add: a_def b_def)
  have a1000: "n div 1000 = c"
    using zdiv_zmult2_eq [of 10 "n div 10" 10] zdiv_zmult2_eq [of 100 n 10]
    by (simp add: a_def b_def c_def a100 [symmetric])
  define r0 where "r0 = n mod 10"
  define r1 where "r1 = a mod 10"
  define r2 where "r2 = b mod 10"
  have c10: "c mod 10 = c"
    using assms a1000 by simp
  have n: "n = 10 * a + r0" by (simp add: a_def r0_def)
  have a: "a = 10 * b + r1" by (simp add: b_def r1_def)
  have b: "b = 10 * c + r2" by (simp add: c_def r2_def)
  have "num_of (pad4 n) = 10 * (10 * (10 * (c mod 10) + b mod 10) + a mod 10) + n mod 10"
    by (simp add: num_of_def pad4_def digit_val_digit_char a100 a1000 a_def [symmetric])
  also have "\<dots> = 10 * (10 * (10 * c + r2) + r1) + r0"
    by (simp only: c10 r0_def r1_def r2_def)
  also have "\<dots> = n"
    using n a b by (simp only:)
  finally show ?thesis .
qed

lemma field_pad2:
  assumes "0 \<le> n" "n < 100" "\<not> is_digit c"
  shows "field 1 2 (pad2 n @ c # r) = Some (n, c # r)"
proof -
  have "takeWhile is_digit (pad2 n @ c # r) = pad2 n" "dropWhile is_digit (pad2 n @ c # r) = c # r"
    using assms(3) by (simp_all add: pad2_def is_digit_digit_char)
  then show ?thesis
    using num_of_pad2 [OF assms(1,2)] by (simp add: field_def pad2_def)
qed

lemma field_pad2_end:
  assumes "0 \<le> n" "n < 100"
  shows "field 1 2 (pad2 n) = Some (n, [])"
proof -
  have "takeWhile is_digit (pad2 n) = pad2 n" "dropWhile is_digit (pad2 n) = []"
    by (simp_all add: pad2_def is_digit_digit_char)
  then show ?thesis
    using num_of_pad2 [OF assms] by (simp add: field_def pad2_def)
qed

lemma field_pad4:
  assumes "0 \<le> n" "n < 10000" "\<not> is_digit c"
  shows "field 4 4 (pad4 n @ c # r) = Some (n, c # r)"
proof -
  have "takeWhile is_digit (pad4 n @ c # r) = pad4 n" "dropWhile is_digit (pad4 n @ c # r) = c # r"
    using assms(3) by (simp_all add: pad4_def is_digit_digit_char)
  then show ?thesis
    using num_of_pad4 [OF assms(1,2)] by (simp add: field_def pad4_def)
qed

lemma day_field_pad2: "day_field (pad2 n @ c # r) = field 1 2 (pad2 n @ c # r)"
  by (simp add: day_field_def pad2_def digit_char_not_space)

lemma spaces_pad2: "spaces (CHR '' '' # pad2 n @ r) = Some (pad2 n @ r)"
  by (simp add: spaces_def pad2_def separators not_is_space_digit_char)

lemma days_in_month_le: "days_in_month y m \<le> 31"
  by (simp add: days_in_month_def)

lemma parse_fields_strftime:
  assumes "valid_datetime t"
  shows "parse_fields (strftime t) = Some (t\<lparr>microsecond := 0\<rparr>)"
proof -
  have d: "day t \<le> 31"
    using assms days_in_month_le [of "year t" "month t"] by (simp add: valid_datetime_def)
  have b: "0 \<le> year t" "year t < 10000" "0 \<le> month t" "month t < 100" "0 \<le> day t" "day t < 100"
    "0 \<le> hour t" "hour t < 100" "0 \<le> minute t" "minute t < 100" "0 \<le> second t" "second t < 100"
    using assms d by (simp_all add: valid_datetime_def)
  show ?thesis
    unfolding parse_fields_def strftime_def
    by (simp add: field_pad4 field_pad2 field_pad2_end day_field_pad2 spaces_pad2 separators b
        expect_def del: One_nat_def)
qed

lemma strptime_strftime:
  assumes "valid_datetime t"
  shows "strptime (strftime t) = Inr (t\<lparr>microsecond := 0\<rparr>)"
  using assms by (simp add: strptime_def parse_fields_strftime valid_datetime_def)

section \<open>Properties of the staleness filter\<close>

text \<open>
  C3. For every timestamp string that the parser accepts, \<open>is_updated\<close> answers that the
  reading is fresh exactly when the current time minus the timestamp is strictly less than
  60 seconds. In particular a timestamp exactly 59 seconds old is fresh, one exactly 61
  seconds old is stale, and a timestamp in the future (a negative difference) is fresh.
\<close>

theorem is_updated_one_minute:
  assumes "strptime ts = Inr t"
  shows "is_updated now (JStr ts) = Inr (to_microseconds now - to_microseconds t < 60 * 1000000)
       \<and> (to_microseconds now - to_microseconds t = 59 * 1000000 \<longrightarrow> is_updated now (JStr ts) = Inr True)
       \<and> (to_microseconds now - to_microseconds t = 61 * 1000000 \<longrightarrow> is_updated now (JStr ts) = Inr False)
       \<and> (to_microseconds now - to_microseconds t < 0 \<longrightarrow> is_updated now (JStr ts) = Inr True)"
  using assms by (simp add: is_updated_def one_minute_def)

lemma strptime_example: "strptime ''2024-10-05 14:00:25'' = Inr (at_time 14 0 25)"
  by code_simp

theorem is_updated_one_minute_witness:
  "strptime ''2024-10-05 14:00:25'' = Inr (at_time 14 0 25)
   \<and> to_microseconds (at_time 14 1 24) - to_microseconds (at_time 14 0 25) = 59 * 1000000
   \<and> is_updated (at_time 14 1 24) (JStr ''2024-10-05 14:00:25'') = Inr True
   \<and> to_microseconds (at_time 14 1 26) - to_microseconds (at_time 14 0 25) = 61 * 1000000
   \<and> is_updated (at_time 14 1 26) (JStr ''2024-10-05 14:00:25'') = Inr False
   \<and> to_microseconds (at_time 13 0 0) - to_microseconds (at_time 14 0 25) < 0
   \<and> is_updated (at_time 13 0 0) (JStr ''2024-10-05 14:00:25'') = Inr True"
proof -
  have a: "to_microseconds (at_time 14 1 24) - to_microseconds (at_time 14 0 25) = 59 * 1000000"
    by code_simp
  have b: "to_microseconds (at_time 14 1 26) - to_microseconds (at_time 14 0 25) = 61 * 1000000"
    by code_simp
  have c: "to_microseconds (at_time 13 0 0) - to_microseconds (at_time 14 0 25) < 0"
    by code_simp
  show ?thesis
    using a b c strptime_example
      is_updated_one_minute [OF strptime_example, of "at_time 14 1 24"]
      is_updated_one_minute [OF strptime_example, of "at_time 14 1 26"]
      is_updated_one_minute [OF strptime_example, of "at_time 13 0 0"]
    by simp
qed

section \<open>Properties of the peer enumerator\<close>

lemma lookup_append:
  "lookup fs (p @ q) = (case lookup fs p of None \<Rightarrow> None | Some n \<Rightarrow> lookup n q)"
  by (induction p arbitrary: fs) (auto split: option.splits)

lemma is_dir_child:
  assumes "lookup fs p = Some (Dir r es)"
  shows "is_dir fs (p @ [e]) = (case map_of es e of None \<Rightarrow> False | Some n \<Rightarrow> node_is_dir n)"
  using assms by (auto simp: is_dir_def lookup_append split: option.splits node.splits)

lemma users_loop_filter:
  "users_loop fs p entries users = users @ filter (\<lambda>e. is_dir fs (p @ [e])) entries"
  by (induction entries arbitrary: users) auto

lemma filter_names_agree:
  "\<forall>(k, v) \<in> set es. f k = Some v \<Longrightarrow>
   filter (\<lambda>e. case f e of None \<Rightarrow> False | Some n \<Rightarrow> node_is_dir n) (map fst es)
     = map fst (filter (\<lambda>(name, n). node_is_dir n) es)"
  by (induction es) auto

lemma filter_names_distinct:
  assumes "distinct (map fst es)"
  shows "filter (\<lambda>e. case map_of es e of None \<Rightarrow> False | Some n \<Rightarrow> node_is_dir n) (map fst es)
     = map fst (filter (\<lambda>(name, n). node_is_dir n) es)"
  by (rule filter_names_agree) (use assms in auto)

text \<open>
  C9. When the path names a directory that may be listed (its entries having distinct names,
  as the entries of a directory have), \<open>network_participants\<close> returns exactly the names of
  the entries that are directories, in listing order. When the path does not exist, names a
  regular file, or names a directory that may not be listed, it raises (FileNotFoundError,
  NotADirectoryError, PermissionError) instead of returning an empty list.
\<close>

theorem network_participants_subdirectories:
  assumes "distinct (map fst es)"
  shows "(lookup fs datasite_path = Some (Dir True es) \<longrightarrow>
            network_participants fs datasite_path
              = Inr (map fst (filter (\<lambda>(name, n). node_is_dir n) es)))
       \<and> (lookup fs datasite_path = None \<longrightarrow>
            network_participants fs datasite_path = Inl FileNotFoundError)
       \<and> (lookup fs datasite_path = Some (File c) \<longrightarrow>
            network_participants fs datasite_path = Inl NotADirectoryError)
       \<and> (lookup fs datasite_path = Some (Dir False es) \<longrightarrow>
            network_participants fs datasite_path = Inl PermissionError)"
proof (intro conjI impI)
  assume r: "lookup fs datasite_path = Some (Dir True es)"
  have "users_loop fs datasite_path (map fst es) []
          = filter (\<lambda>e. case map_of es e of None \<Rightarrow> False | Some n \<Rightarrow> node_is_dir n) (map fst es)"
    by (simp add: users_loop_filter is_dir_child [OF r])
  with r show "network_participants fs datasite_path
                 = Inr (map fst (filter (\<lambda>(name, n). node_is_dir n) es))"
    by (simp add: network_participants_def listdir_def filter_names_distinct [OF assms])
next
  assume "lookup fs datasite_path = None"
  then show "network_participants fs datasite_path = Inl FileNotFoundError"
    by (simp add: network_participants_def listdir_def)
next
  assume "lookup fs datasite_path = Some (File c)"
  then show "network_participants fs datasite_path = Inl NotADirectoryError"
    by (simp add: network_participants_def listdir_def)
next
  assume "lookup fs datasite_path = Some (Dir False es)"
  then show "network_participants fs datasite_path = Inl PermissionError"
    by (simp add: network_participants_def listdir_def)
qed

theorem network_participants_subdirectories_witness:
  "network_participants datasites_abc [] = Inr [''A'', ''B'', ''C'']
   \<and> network_participants unreadable_root [''nowhere''] = Inl FileNotFoundError
   \<and> network_participants datasites_abc [''notes.txt''] = Inl NotADirectoryError
   \<and> network_participants unreadable_root [''datasites''] = Inl PermissionError"
proof -
  have a: "network_participants datasites_abc [] = Inr [''A'', ''B'', ''C'']"
    using network_participants_subdirectories
      [of "[(''A'', peer_dir (telemetry 10 ''2024-10-05 14:00:25'')),
            (''B'', peer_dir Undecodable),
            (''notes.txt'', File Undecodable),
            (''C'', peer_dir (telemetry 20 ''2024-10-05 14:00:00''))]" datasites_abc "[]"]
    by (simp add: datasites_abc_def peer_dir_def)
  have b: "network_participants unreadable_root [''nowhere''] = Inl FileNotFoundError"
    using network_participants_subdirectories [of "[]" unreadable_root "[''nowhere'']"]
    by (simp add: unreadable_root_def)
  have c: "network_participants datasites_abc [''notes.txt''] = Inl NotADirectoryError"
    using network_participants_subdirectories [of "[]" datasites_abc "[''notes.txt'']" Undecodable]
    by (simp add: datasites_abc_def)
  have d: "network_participants unreadable_root [''datasites''] = Inl PermissionError"
    using network_participants_subdirectories
      [of "[(''A'', Dir True [])]" unreadable_root "[''datasites'']"]
    by (simp add: unreadable_root_def)
  from a b c d show ?thesis by simp
qed

section \<open>Properties of the network aggregator\<close>

subsection \<open>One turn of the loop\<close>

lemma peer_sample_absent:
  "lookup fs (tracker_file datasites_path p) = None \<Longrightarrow> peer_sample fs datasites_path now p = Inr None"
  by (simp add: peer_sample_def path_exists_def)

lemma peer_sample_undecodable:
  "lookup fs (tracker_file datasites_path p) = Some (File Undecodable) \<Longrightarrow> peer_sample fs datasites_path now p = Inr None"
  by (simp add: peer_sample_def path_exists_def open_read_def json_load_def)

lemma peer_sample_reading_iff:
  "peer_sample fs datasites_path now p = Inr (Some x) \<longleftrightarrow>
     (\<exists>kvs ts t v.
        lookup fs (tracker_file datasites_path p) = Some (File (Json (JObj kvs)))
        \<and> map_of kvs ''timestamp'' = Some (JStr ts)
        \<and> strptime ts = Inr t
        \<and> to_microseconds now - to_microseconds t < 60 * 1000000
        \<and> map_of kvs ''cpu'' = Some v
        \<and> py_float v = Inr x)"
  unfolding peer_sample_def path_exists_def open_read_def json_load_def py_contains_def
    py_getitem_def is_updated_def one_minute_def Let_def
  by (auto split: option.splits node.splits contents.splits json.splits sum.splits bool.splits if_splits)

lemma peer_sample_malformed_timestamp:
  assumes "lookup fs (tracker_file datasites_path p) = Some (File (Json (JObj kvs)))"
    and "map_of kvs ''timestamp'' = Some (JStr ts)"
    and "strptime ts = Inl e"
  shows "peer_sample fs datasites_path now p = Inl e"
  using assms
  by (simp add: peer_sample_def path_exists_def open_read_def json_load_def py_contains_def
      py_getitem_def is_updated_def)

text \<open>When a turn raises, in terms of what the peer's path holds.\<close>

lemma peer_sample_raises_iff:
  "isl (peer_sample fs datasites_path now p) \<longleftrightarrow>
     (case lookup fs (tracker_file datasites_path p) of
        None \<Rightarrow> False
      | Some (Dir r es) \<Rightarrow> True
      | Some (File (Unloadable e)) \<Rightarrow> e \<noteq> JSONDecodeError
      | Some (File (Json (JObj kvs))) \<Rightarrow>
          (case map_of kvs ''timestamp'' of
             None \<Rightarrow> False
           | Some ts \<Rightarrow>
               (case is_updated now ts of
                  Inl e \<Rightarrow> True
                | Inr False \<Rightarrow> False
                | Inr True \<Rightarrow>
                    (case map_of kvs ''cpu'' of None \<Rightarrow> True | Some c \<Rightarrow> isl (py_float c))))
      | Some (File (Json (JArr xs))) \<Rightarrow> JStr ''timestamp'' \<in> set xs
      | Some (File (Json (JStr s))) \<Rightarrow> sublist ''timestamp'' s
      | Some (File (Json other)) \<Rightarrow> True)"
  unfolding peer_sample_def path_exists_def open_read_def json_load_def py_contains_def
    py_getitem_def Let_def
  by (auto split: option.splits node.splits contents.splits json.splits sum.splits bool.splits)

lemma is_updated_raises_iff:
  "isl (is_updated now ts) \<longleftrightarrow> (case ts of JStr s \<Rightarrow> isl (strptime s) | _ \<Rightarrow> True)"
  by (simp add: is_updated_def Let_def split: json.splits sum.splits)

subsection \<open>The loop\<close>

lemma peers_loop_readings:
  "raises_nowhere fs dp clock i peers \<Longrightarrow>
   peers_loop fs dp clock i peers u n act
     = Inr (foldl fadd u (map snd (readings fs dp clock i peers)),
            n + length (readings fs dp clock i peers),
            act @ map fst (readings fs dp clock i peers))"
proof (induction peers arbitrary: i u n act)
  case Nil
  show ?case by simp
next
  case (Cons p ps)
  then show ?case
    by (cases "peer_sample fs dp (clock i) p") (auto split: option.splits)
qed

lemma peers_loop_returns:
  "peers_loop fs dp clock i peers u n act = Inr r \<Longrightarrow> raises_nowhere fs dp clock i peers"
proof (induction peers arbitrary: i u n act)
  case Nil
  show ?case by simp
next
  case (Cons p ps)
  then show ?case
    by (cases "peer_sample fs dp (clock i) p") (auto split: option.splits)
qed

lemma raising_turn_aborts:
  assumes "\<not> raises_nowhere fs dp clock 0 peers"
  shows "\<exists>e. get_network_cpu_mean fs clock dp peers = Inl e"
proof (cases "peers_loop fs dp clock 0 peers (Finite 0) 0 []")
  case (Inl e)
  then show ?thesis by (simp add: get_network_cpu_mean_def)
next
  case (Inr r)
  with assms show ?thesis using peers_loop_returns by blast
qed

lemma readings_subseq: "subseq (map fst (readings fs dp clock i peers)) peers"
  by (induction peers arbitrary: i) (auto split: sum.splits option.splits)

lemma readings_member_iff:
  "(p, x) \<in> set (readings fs dp clock i ps) \<longleftrightarrow>
     (\<exists>j<length ps. ps ! j = p \<and> peer_sample fs dp (clock (i + j)) p = Inr (Some x))"
proof (induction ps arbitrary: i)
  case Nil
  show ?case by simp
next
  case (Cons q ps)
  have split: "(\<exists>j<length (q # ps). (q # ps) ! j = p \<and> peer_sample fs dp (clock (i + j)) p = Inr (Some x))
      \<longleftrightarrow> (q = p \<and> peer_sample fs dp (clock i) p = Inr (Some x))
          \<or> (\<exists>j<length ps. ps ! j = p \<and> peer_sample fs dp (clock (Suc i + j)) p = Inr (Some x))"
    (is "?L \<longleftrightarrow> ?A \<or> ?B")
  proof
    assume ?L
    then obtain j where j: "j < length (q # ps)" "(q # ps) ! j = p"
      "peer_sample fs dp (clock (i + j)) p = Inr (Some x)" by blast
    show "?A \<or> ?B"
    proof (cases j)
      case 0
      with j show ?thesis by simp
    next
      case (Suc k)
      with j have "k < length ps \<and> ps ! k = p \<and> peer_sample fs dp (clock (Suc i + k)) p = Inr (Some x)"
        by simp
      then show ?thesis by blast
    qed
  next
    assume "?A \<or> ?B"
    then show ?L
    proof
      assume ?A
      then have "0 < length (q # ps) \<and> (q # ps) ! 0 = p \<and> peer_sample fs dp (clock (i + 0)) p = Inr (Some x)"
        by simp
      then show ?L by blast
    next
      assume ?B
      then obtain k where "k < length ps" "ps ! k = p" "peer_sample fs dp (clock (Suc i + k)) p = Inr (Some x)"
        by blast
      then have "Suc k < length (q # ps) \<and> (q # ps) ! Suc k = p \<and> peer_sample fs dp (clock (i + Suc k)) p = Inr (Some x)"
        by simp
      then show ?L by blast
    qed
  qed
  show ?case
    unfolding split using Cons.IH [of "Suc i"]
    by (cases "peer_sample fs dp (clock i) q") (auto split: option.splits)
qed

lemma peers_loop_cong:
  "(\<And>j. i \<le> j \<Longrightarrow> c1 j = c2 j) \<Longrightarrow>
   peers_loop fs dp c1 i ps u n act = peers_loop fs dp c2 i ps u n act"
proof (induction ps arbitrary: i u n act)
  case Nil
  show ?case by simp
next
  case (Cons p ps)
  have "c1 i = c2 i" using Cons.prems by simp
  moreover have "\<And>u n act. peers_loop fs dp c1 (Suc i) ps u n act = peers_loop fs dp c2 (Suc i) ps u n act"
    by (rule Cons.IH) (simp add: Cons.prems)
  ultimately show ?case by (simp split: sum.splits option.splits)
qed

lemma peers_loop_shift:
  "peers_loop fs dp c (Suc i) ps u n act = peers_loop fs dp (\<lambda>j. c (Suc j)) i ps u n act"
  by (induction ps arbitrary: i u n act) (auto split: sum.splits option.splits)

lemma peers_loop_skip:
  assumes "\<And>t. peer_sample fs dp t p = Inr None"
  shows "peers_loop fs dp clock i (ps @ p # qs) u n act
           = peers_loop fs dp (skip_turn (i + length ps) clock) i (ps @ qs) u n act"
proof (induction ps arbitrary: i u n act)
  case Nil
  have "peers_loop fs dp (skip_turn i clock) i qs u n act
          = peers_loop fs dp (\<lambda>j. clock (Suc j)) i qs u n act"
    by (rule peers_loop_cong) (simp add: skip_turn_def)
  then show ?case by (simp add: assms peers_loop_shift)
next
  case (Cons q ps)
  have "skip_turn (i + length (q # ps)) clock i = clock i"
    by (simp add: skip_turn_def)
  then show ?case
    using Cons.IH [of "Suc i"] by (simp split: sum.splits option.splits)
qed

subsection \<open>The result\<close>

text \<open>
  On every list of peers on which no turn of the loop raises, the function returns: the sum
  of the readings of the contributing peers divided by their number when there is at least
  one, and the int \<open>-1\<close> with no active peer when there is none.
\<close>

lemma mean_when_nothing_raises:
  assumes "raises_nowhere fs datasites_path clock 0 peers"
  shows "get_network_cpu_mean fs clock datasites_path peers
           = Inr (if readings fs datasites_path clock 0 peers = [] then (JInt (- 1), [])
                  else (JFloat (fdiv_count (fsum (map snd (readings fs datasites_path clock 0 peers)))
                                  (length (readings fs datasites_path clock 0 peers))),
                        map fst (readings fs datasites_path clock 0 peers)))"
  by (simp add: get_network_cpu_mean_def peers_loop_readings [OF assms] fsum_def)

text \<open>
  A peer whose telemetry file is absent, or holds text that is not JSON, is passed over
  without an error, and the aggregation gives what it gives on the list without that peer
  (the clock readings of the other turns unchanged).
\<close>

lemma absent_or_not_json_peer_skipped:
  assumes "lookup fs (tracker_file datasites_path p) = None
         \<or> lookup fs (tracker_file datasites_path p) = Some (File Undecodable)"
  shows "peer_sample fs datasites_path now p = Inr None
       \<and> get_network_cpu_mean fs clock datasites_path (ps @ p # qs)
           = get_network_cpu_mean fs (skip_turn (length ps) clock) datasites_path (ps @ qs)"
proof -
  have s: "\<And>t. peer_sample fs datasites_path t p = Inr None"
    using assms peer_sample_absent peer_sample_undecodable by blast
  show ?thesis
    using peers_loop_skip [of fs datasites_path p clock 0 ps qs, OF s]
    by (simp add: s get_network_cpu_mean_def)
qed

text \<open>
  C1. The claim is that for every peer set the result is the mean of the fresh, valid
  readings, and \<open>(-1, [])\<close> when no peer has fresh, parseable data. The code does otherwise
  when a peer's data does not parse: with the single peer \<open>A\<close> whose timestamp is not in the
  layout, no peer contributes a reading, yet \<open>(-1, [])\<close> is not returned: the ValueError of
  the parser leaves the function. With peers that have no data at all (\<open>B\<close> not JSON, \<open>Z\<close>
  absent) it is returned.
\<close>

theorem unparseable_peer_breaks_sentinel:
  "readings datasites_bad_stamp [] (frozen (at_time 14 0 30)) 0 [''A''] = []
   \<and> get_network_cpu_mean datasites_bad_stamp (frozen (at_time 14 0 30)) [] [''A'']
       = Inl ValueError
   \<and> get_network_cpu_mean datasites_abc (frozen (at_time 14 0 30)) [] [''B'', ''Z'']
       = Inr (JInt (- 1), [])"
  by code_simp

text \<open>
  C2. The claim is that a peer whose timestamp fails to parse, or whose file lacks \<open>cpu\<close>,
  is passed over and the cycle goes on. The code does otherwise: after a fresh valid peer
  \<open>A\<close>, a peer \<open>B\<close> with a malformed timestamp ends the aggregation with ValueError, and
  a peer \<open>C\<close> with a fresh timestamp and no \<open>cpu\<close> ends it with KeyError; with \<open>A\<close> alone
  the mean is returned.
\<close>

theorem faulty_peer_aborts_aggregation:
  "get_network_cpu_mean datasites_faulty (frozen (at_time 14 0 30)) [] [''A'', ''B''] = Inl ValueError
   \<and> get_network_cpu_mean datasites_faulty (frozen (at_time 14 0 30)) [] [''A'', ''C''] = Inl KeyError
   \<and> get_network_cpu_mean datasites_faulty (frozen (at_time 14 0 30)) [] [''A'']
       = Inr (JFloat (Finite 10), [''A''])"
  by code_simp

text \<open>
  C5. The claim is that a peer whose telemetry file is absent or is not valid JSON is passed
  over, and the mean is computed over the other peers. The code does so when the file is
  absent or holds text that is not JSON: peers \<open>A\<close> (cpu 10), \<open>B\<close> (text that is not JSON),
  \<open>C\<close> (cpu 20) give the mean 15 and the active peers \<open>[A, C]\<close>. It does otherwise when the
  corrupt file holds bytes that are not text: the UnicodeDecodeError that \<open>json.load\<close> raises
  is not a JSONDecodeError, is not caught, and ends the aggregation.
\<close>

theorem corrupt_bytes_abort_aggregation:
  "get_network_cpu_mean datasites_bytes (frozen (at_time 14 0 30)) [] [''A'', ''B'', ''C'']
     = Inl UnicodeDecodeError
   \<and> get_network_cpu_mean datasites_abc (frozen (at_time 14 0 30)) [] [''A'', ''B'', ''C'']
       = Inr (JFloat (Finite 15), [''A'', ''C''])
   \<and> get_network_cpu_mean datasites_abc (frozen (at_time 14 0 30)) [] [''A'', ''Z'', ''C'']
       = Inr (JFloat (Finite 15), [''A'', ''C''])"
  by code_simp

text \<open>
  C10. Whenever \<open>get_network_cpu_mean\<close> returns, the active peers are a subsequence of the
  input list (in its order, nothing added): they are the contributing peers, and when there
  is at least one the mean is the sum of the readings of exactly those peers divided by
  their number.
\<close>

theorem active_peers_subsequence:
  assumes "get_network_cpu_mean fs clock datasites_path peers = Inr (mean_cpu, active_peers)"
  shows "subseq active_peers peers
       \<and> active_peers = map fst (readings fs datasites_path clock 0 peers)
       \<and> (active_peers \<noteq> [] \<longrightarrow>
            mean_cpu = JFloat (fdiv_count (fsum (map snd (readings fs datasites_path clock 0 peers)))
                                (length active_peers)))"
proof -
  obtain r where r: "peers_loop fs datasites_path clock 0 peers (Finite 0) 0 [] = Inr r"
    using assms by (auto simp: get_network_cpu_mean_def split: sum.splits)
  have ok: "raises_nowhere fs datasites_path clock 0 peers"
    using peers_loop_returns [OF r] .
  have act: "active_peers = map fst (readings fs datasites_path clock 0 peers)"
    using assms by (simp add: get_network_cpu_mean_def peers_loop_readings [OF ok])
  have val: "mean_cpu = (if readings fs datasites_path clock 0 peers \<noteq> []
                          then JFloat (fdiv_count (fsum (map snd (readings fs datasites_path clock 0 peers)))
                                  (length (readings fs datasites_path clock 0 peers)))
                          else JInt (- 1))"
    using assms
    by (auto simp: get_network_cpu_mean_def peers_loop_readings [OF ok] fsum_def split: if_splits)
  have len: "length active_peers = length (readings fs datasites_path clock 0 peers)"
    by (simp add: act)
  have mean: "active_peers \<noteq> [] \<longrightarrow>
      mean_cpu = JFloat (fdiv_count (fsum (map snd (readings fs datasites_path clock 0 peers)))
                          (length active_peers))"
  proof
    assume "active_peers \<noteq> []"
    then have "readings fs datasites_path clock 0 peers \<noteq> []"
      using act by auto
    then show "mean_cpu = JFloat (fdiv_count (fsum (map snd (readings fs datasites_path clock 0 peers)))
                                    (length active_peers))"
      using val len by simp
  qed
  show ?thesis
    using act mean readings_subseq [of fs datasites_path clock 0 peers] by simp
qed

theorem active_peers_subsequence_witness:
  "get_network_cpu_mean datasites_abc (frozen (at_time 14 0 30)) [] [''C'', ''Z'', ''A'']
     = Inr (JFloat (Finite 15), [''C'', ''A''])
   \<and> subseq [''C'', ''A''] [''C'', ''Z'', ''A'']
   \<and> [''C'', ''A''] = map fst [(''C'', Finite 20), (''A'', Finite 10)]
   \<and> JFloat (Finite 15)
       = JFloat (fdiv_count (fsum (map snd [(''C'', Finite 20), (''A'', Finite 10)]))
                   (length [''C'', ''A'']))"
proof -
  have h: "get_network_cpu_mean datasites_abc (frozen (at_time 14 0 30)) [] [''C'', ''Z'', ''A'']
             = Inr (JFloat (Finite 15), [''C'', ''A''])"
    by code_simp
  have r: "readings datasites_abc [] (frozen (at_time 14 0 30)) 0 [''C'', ''Z'', ''A'']
             = [(''C'', Finite 20), (''A'', Finite 10)]"
    by code_simp
  note t = active_peers_subsequence [OF h, unfolded r]
  have q: "subseq [''C'', ''A''] [''C'', ''Z'', ''A'']"
    using t by simp
  have m: "JFloat (Finite 15)
       = JFloat (fdiv_count (fsum (map snd [(''C'', Finite 20), (''A'', Finite 10)]))
                   (length [''C'', ''A'']))"
    using t by simp
  show ?thesis
    using h q m by simp
qed

section \<open>Properties of the rolling history store\<close>

subsection \<open>Storing and reading back\<close>

lemma child_update:
  "child (Dir r (AList.update name m es)) name = Some m"
  by (simp add: update_conv')

lemma store_lookup:
  "store fs p c = Inr fs' \<Longrightarrow> lookup fs' p = Some (File c)"
proof (induction p arbitrary: fs fs')
  case Nil
  then show ?case by (cases fs) auto
next
  case (Cons name cs)
  show ?case
  proof (cases fs)
    case (File old)
    with Cons.prems show ?thesis by simp
  next
    case (Dir r es)
    show ?thesis
    proof (cases "map_of es name")
      case None
      with Dir Cons.prems have "cs = []" and "fs' = Dir r (AList.update name (File c) es)"
        by (auto split: if_splits)
      then show ?thesis
        by (simp only: lookup.simps child_update option.case)
    next
      case (Some m)
      with Dir Cons.prems obtain m' where m': "store m cs c = Inr m'"
        and fs': "fs' = Dir r (AList.update name m' es)"
        by (auto split: sum.splits)
      have "lookup m' cs = Some (File c)"
        using m' by (rule Cons.IH)
      then show ?thesis
        unfolding fs' by (simp only: lookup.simps child_update option.case)
    qed
  qed
qed

lemma store_on_file:
  "lookup fs p = Some (File old) \<Longrightarrow> \<exists>fs'. store fs p c = Inr fs'"
proof (induction p arbitrary: fs)
  case Nil
  then show ?case by simp
next
  case (Cons name cs)
  show ?case
  proof (cases fs)
    case (File x)
    with Cons.prems show ?thesis by simp
  next
    case (Dir r es)
    with Cons.prems obtain m where m: "map_of es name = Some m" and l: "lookup m cs = Some (File old)"
      by (auto split: option.splits)
    from Cons.IH [OF l] obtain m' where "store m cs c = Inr m'" by blast
    with Dir m show ?thesis by simp
  qed
qed

subsection \<open>The history to be written\<close>

lemma slice_last:
  assumes "int (length xs) > k" and "1 \<le> k"
  shows "slice_from xs (- k) = drop (length xs - nat k) xs"
proof -
  have "nat (- k + int (length xs)) = length xs - nat k"
    using assms by linarith
  moreover have "max (- k + int (length xs)) 0 = - k + int (length xs)"
    using assms by simp
  ultimately show ?thesis
    using assms by (simp add: slice_from_def Let_def)
qed

lemma new_history_existing:
  assumes "lookup fs p = Some (File (Json (history_document h ps0)))" and "1 \<le> k"
  shows "new_history fs p k e = Inr (drop (length (h @ [e]) - nat k) (h @ [e]))"
proof (cases "int (length (h @ [e])) > k")
  case True
  with assms show ?thesis
    by (simp add: new_history_def path_exists_def open_read_def json_load_def py_getitem_def
      history_document_def py_append_def slice_last del: length_append)
next
  case False
  then have "length (h @ [e]) - nat k = 0" by linarith
  with False assms show ?thesis
    by (simp add: new_history_def path_exists_def open_read_def json_load_def py_getitem_def
      history_document_def py_append_def del: length_append)
qed

lemma new_history_absent:
  "lookup fs p = None \<Longrightarrow> new_history fs p k e = Inr [e]"
  by (simp add: new_history_def path_exists_def)

lemma py_append_Inr:
  "py_append v x = Inr history \<Longrightarrow> \<exists>xs. v = JArr xs \<and> history = xs @ [x]"
  by (cases v) (simp_all add: py_append_def)

lemma new_history_cases:
  assumes "new_history fs p k e = Inr history"
  shows "(lookup fs p = None \<and> history = [e])
       \<or> (\<exists>xs. history = (if int (length (xs @ [e])) > k then slice_from (xs @ [e]) (- k) else xs @ [e]))"
proof (cases "path_exists fs p")
  case False
  with assms show ?thesis by (simp add: new_history_def path_exists_def)
next
  case True
  with assms obtain c v items h where
    "open_read fs p = Inr c" "json_load c = Inr v" "py_getitem v ''items'' = Inr items"
    "py_append items e = Inr h"
    "history = (if int (length h) > k then slice_from h (- k) else h)"
    by (simp add: new_history_def split: sum.splits)
  then show ?thesis
    using py_append_Inr by blast
qed

lemma length_slice_last:
  assumes "int (length ys) > k" and "1 \<le> k"
  shows "int (length (slice_from ys (- k))) = k"
proof -
  have "int (length ys - (length ys - nat k)) = k"
    using assms by linarith
  then show ?thesis
    by (simp add: slice_last [OF assms])
qed

lemma new_history_length:
  assumes "new_history fs p k e = Inr history" and "1 \<le> k"
  shows "int (length history) \<le> k"
proof -
  have bound: "int (length (if int (length ys) > k then slice_from ys (- k) else ys)) \<le> k"
    for ys :: "json list"
    using length_slice_last [of k ys] assms(2) by (cases "int (length ys) > k") simp_all
  from new_history_cases [OF assms(1)] show ?thesis
  proof
    assume "lookup fs p = None \<and> history = [e]"
    with assms(2) show ?thesis by simp
  next
    assume "\<exists>xs. history = (if int (length (xs @ [e])) > k then slice_from (xs @ [e]) (- k)
                             else xs @ [e])"
    then obtain xs where "history = (if int (length (xs @ [e])) > k then slice_from (xs @ [e]) (- k)
                             else xs @ [e])" by blast
    then show ?thesis
      using bound [of "xs @ [e]"] by (simp only:)
  qed
qed

subsection \<open>One cycle, and several\<close>

lemma truncate_file_success:
  assumes "truncate_file disk fs now p k s peers = (Inr (), fs')"
  shows "\<exists>history. new_history fs p k (history_entry s (strftime now)) = Inr history
           \<and> lookup fs' p = Some (File (Json (history_document history peers)))"
proof -
  obtain history where h: "new_history fs p k (history_entry s (strftime now)) = Inr history"
    using assms by (cases "new_history fs p k (history_entry s (strftime now))")
      (simp_all add: truncate_file_def)
  obtain opened where opened: "store fs p Undecodable = Inr opened"
    using assms h by (cases "store fs p Undecodable") (simp_all add: truncate_file_def split: if_splits)
  have "store opened p (Json (history_document history peers)) = Inr fs'"
    using assms h opened
    by (cases disk; cases "store opened p (Json (history_document history peers))")
      (simp_all add: truncate_file_def)
  then have "lookup fs' p = Some (File (Json (history_document history peers)))"
    by (rule store_lookup)
  with h show ?thesis by blast
qed

lemma truncate_file_writes:
  assumes "new_history fs p k (history_entry s (strftime now)) = Inr history"
    and "store fs p Undecodable = Inr opened"
  shows "\<exists>fs'. truncate_file Accepting fs now p k s peers = (Inr (), fs')
           \<and> lookup fs' p = Some (File (Json (history_document history peers)))"
proof -
  have "lookup opened p = Some (File Undecodable)"
    using assms(2) by (rule store_lookup)
  then obtain fs' where w: "store opened p (Json (history_document history peers)) = Inr fs'"
    using store_on_file by blast
  then have "lookup fs' p = Some (File (Json (history_document history peers)))"
    by (rule store_lookup)
  with w assms show ?thesis
    by (simp add: truncate_file_def)
qed

lemma last_k_append:
  "drop (length (drop (length xs - k) xs @ ys) - k) (drop (length xs - k) xs @ ys)
     = drop (length (xs @ ys) - k) (xs @ ys)"
proof (cases "k \<le> length xs")
  case True
  then have "length ys + length xs - k = length xs + length ys - k"
    by simp
  with True show ?thesis by simp
next
  case False
  then show ?thesis by simp
qed

lemma cycles_from_document:
  assumes "1 \<le> k"
  shows "lookup fs p = Some (File (Json (history_document h ps0))) \<Longrightarrow>
     \<exists>fs'. cycles fs p k (w # ws) = (Inr (), fs')
       \<and> lookup fs' p = Some (File (Json (history_document
            (drop (length (h @ map entry_of (w # ws)) - nat k) (h @ map entry_of (w # ws)))
            (snd (snd (last (w # ws)))))))"
proof (induction ws arbitrary: fs h ps0 w)
  case Nil
  obtain now s peers where w: "w = (now, s, peers)" by (cases w)
  have nh: "new_history fs p k (history_entry s (strftime now))
              = Inr (drop (length (h @ [entry_of w]) - nat k) (h @ [entry_of w]))"
    using new_history_existing [OF Nil assms] by (simp add: w)
  obtain opened where "store fs p Undecodable = Inr opened"
    using store_on_file [OF Nil] by blast
  from truncate_file_writes [OF nh this, of peers] show ?case
    by (auto simp: w)
next
  case (Cons w' ws)
  obtain now s peers where w: "w = (now, s, peers)" by (cases w)
  let ?h1 = "drop (length (h @ [entry_of w]) - nat k) (h @ [entry_of w])"
  have nh: "new_history fs p k (history_entry s (strftime now)) = Inr ?h1"
    using new_history_existing [OF Cons.prems assms] by (simp add: w)
  obtain opened where "store fs p Undecodable = Inr opened"
    using store_on_file [OF Cons.prems] by blast
  from truncate_file_writes [OF nh this, of peers] obtain fs1 where
    t: "truncate_file Accepting fs now p k s peers = (Inr (), fs1)"
    and l: "lookup fs1 p = Some (File (Json (history_document ?h1 peers)))"
    by blast
  from Cons.IH [OF l, of w'] obtain fs' where
    c: "cycles fs1 p k (w' # ws) = (Inr (), fs')"
    and r: "lookup fs' p = Some (File (Json (history_document
              (drop (length (?h1 @ map entry_of (w' # ws)) - nat k) (?h1 @ map entry_of (w' # ws)))
              (snd (snd (last (w' # ws)))))))"
    by blast
  have e: "drop (length (?h1 @ map entry_of (w' # ws)) - nat k) (?h1 @ map entry_of (w' # ws))
         = drop (length (h @ map entry_of (w # w' # ws)) - nat k) (h @ map entry_of (w # w' # ws))"
    using last_k_append [of "h @ [entry_of w]" "nat k" "map entry_of (w' # ws)"] by simp
  have "cycles fs p k (w # w' # ws) = (Inr (), fs')"
    using t c by (simp add: w)
  moreover have "lookup fs' p = Some (File (Json (history_document
            (drop (length (h @ map entry_of (w # w' # ws)) - nat k) (h @ map entry_of (w # w' # ws)))
            (snd (snd (last (w # w' # ws)))))))"
    using r unfolding e by simp
  ultimately show ?case by blast
qed

lemma cycles_from_nothing:
  assumes "1 \<le> k" and "lookup fs p = None" and "store fs p Undecodable = Inr opened"
  shows "\<exists>fs'. cycles fs p k (w # ws) = (Inr (), fs')
       \<and> lookup fs' p = Some (File (Json (history_document
            (drop (length (w # ws) - nat k) (map entry_of (w # ws)))
            (snd (snd (last (w # ws)))))))"
proof -
  obtain now s peers where w: "w = (now, s, peers)" by (cases w)
  have nh: "new_history fs p k (history_entry s (strftime now)) = Inr [entry_of w]"
    using new_history_absent [OF assms(2)] by (simp add: w)
  from truncate_file_writes [OF nh assms(3), of peers] obtain fs1 where
    t: "truncate_file Accepting fs now p k s peers = (Inr (), fs1)"
    and l: "lookup fs1 p = Some (File (Json (history_document [entry_of w] peers)))"
    by blast
  show ?thesis
  proof (cases ws)
    case Nil
    have "Suc 0 - nat k = 0" using assms(1) by linarith
    with t l Nil show ?thesis by (simp add: w)
  next
    case (Cons w' ws')
    from cycles_from_document [OF assms(1) l, of w' ws'] obtain fs' where
      c: "cycles fs1 p k (w' # ws') = (Inr (), fs')"
      and r: "lookup fs' p = Some (File (Json (history_document
              (drop (length ([entry_of w] @ map entry_of (w' # ws')) - nat k)
                    ([entry_of w] @ map entry_of (w' # ws')))
              (snd (snd (last (w' # ws')))))))"
      by blast
    have "cycles fs p k (w # ws) = (Inr (), fs')"
      using t c by (simp add: w Cons)
    moreover have "lookup fs' p = Some (File (Json (history_document
            (drop (length (w # ws) - nat k) (map entry_of (w # ws)))
            (snd (snd (last (w # ws)))))))"
      using r by (simp add: Cons)
    ultimately show ?thesis by blast
  qed
qed

lemma stored_items:
  "lookup fs p = Some (File (Json (history_document h peers))) \<Longrightarrow>
   stored_field fs p ''items'' = Some (JArr h)"
  by (simp add: stored_field_def history_document_def py_getitem_def)

lemma stored_peers:
  "lookup fs p = Some (File (Json (history_document h peers))) \<Longrightarrow>
   stored_field fs p ''peers'' = Some (JArr (map JStr peers))"
  by (simp add: stored_field_def history_document_def py_getitem_def)

text \<open>
  C4, as the code has it. With a capacity \<open>max_items\<close> of at least 1: after every successful
  write the stored \<open>items\<close> has at most \<open>max_items\<close> entries; and after the cycles \<open>ws\<close>
  (at least one) run in turn on an output file that did not exist and can be created, every
  cycle has succeeded, \<open>items\<close> holds the entries of the last \<open>max_items\<close> cycles, oldest
  first, and its length is the minimum of the number of cycles and \<open>max_items\<close>.
\<close>

theorem rolling_history_capacity:
  assumes "1 \<le> max_items"
  shows "(truncate_file disk fs now file_path max_items new_sample peers = (Inr (), fs') \<longrightarrow>
            (\<exists>items. stored_field fs' file_path ''items'' = Some (JArr items)
                      \<and> int (length items) \<le> max_items))
       \<and> (lookup fs file_path = None \<and> store fs file_path Undecodable = Inr opened \<and> ws \<noteq> [] \<longrightarrow>
            (\<exists>fs''. cycles fs file_path max_items ws = (Inr (), fs'')
               \<and> stored_field fs'' file_path ''items''
                    = Some (JArr (drop (length ws - nat max_items) (map entry_of ws)))
               \<and> length (drop (length ws - nat max_items) (map entry_of ws))
                    = min (length ws) (nat max_items)))"
proof (intro conjI impI)
  assume "truncate_file disk fs now file_path max_items new_sample peers = (Inr (), fs')"
  from truncate_file_success [OF this] obtain history where
    "new_history fs file_path max_items (history_entry new_sample (strftime now)) = Inr history"
    "lookup fs' file_path = Some (File (Json (history_document history peers)))"
    by blast
  then show "\<exists>items. stored_field fs' file_path ''items'' = Some (JArr items)
                      \<and> int (length items) \<le> max_items"
    using new_history_length [OF _ assms] stored_items by blast
next
  assume a: "lookup fs file_path = None \<and> store fs file_path Undecodable = Inr opened \<and> ws \<noteq> []"
  then obtain w rest where ws: "ws = w # rest" by (cases ws) auto
  have n: "lookup fs file_path = None" and o: "store fs file_path Undecodable = Inr opened"
    using a by simp_all
  from cycles_from_nothing [OF assms n o, of w rest] obtain fs'' where
    "cycles fs file_path max_items ws = (Inr (), fs'')"
    "lookup fs'' file_path = Some (File (Json (history_document
            (drop (length ws - nat max_items) (map entry_of ws))
            (snd (snd (last ws))))))"
    unfolding ws by blast
  moreover have "length (drop (length ws - nat max_items) (map entry_of ws))
                   = min (length ws) (nat max_items)"
    by auto
  ultimately show "\<exists>fs''. cycles fs file_path max_items ws = (Inr (), fs'')
               \<and> stored_field fs'' file_path ''items''
                    = Some (JArr (drop (length ws - nat max_items) (map entry_of ws)))
               \<and> length (drop (length ws - nat max_items) (map entry_of ws))
                    = min (length ws) (nat max_items)"
    using stored_items by blast
qed

theorem rolling_history_capacity_witness:
  "truncate_file Accepting (public_dir old_history) (at_time 14 0 30) history_path 2 (JInt 30) [''x'']
     = (Inr (), public_dir (Json (history_document
          [history_entry (JInt 20) ''2024-10-05 13:10:00'', history_entry (JInt 30) ''2024-10-05 14:00:30'']
          [''x''])))
   \<and> (\<exists>items. stored_field (public_dir (Json (history_document
          [history_entry (JInt 20) ''2024-10-05 13:10:00'', history_entry (JInt 30) ''2024-10-05 14:00:30'']
          [''x'']))) history_path ''items'' = Some (JArr items) \<and> int (length items) \<le> 2)
   \<and> (lookup (Dir True []) history_path = None
        \<and> store (Dir True []) history_path Undecodable = Inr (public_dir Undecodable)
        \<and> four_cycles \<noteq> [])
   \<and> (\<exists>fs''. cycles (Dir True []) history_path 3 four_cycles = (Inr (), fs'')
         \<and> stored_field fs'' history_path ''items''
              = Some (JArr (drop (length four_cycles - nat 3) (map entry_of four_cycles)))
         \<and> length (drop (length four_cycles - nat 3) (map entry_of four_cycles))
              = min (length four_cycles) (nat 3))
   \<and> drop (length four_cycles - nat 3) (map entry_of four_cycles)
       = [history_entry (JInt 20) ''2024-10-05 14:01:00'', history_entry (JInt 30) ''2024-10-05 14:02:00'',
          history_entry (JInt 40) ''2024-10-05 14:03:00'']"
proof -
  have a: "truncate_file Accepting (public_dir old_history) (at_time 14 0 30) history_path 2 (JInt 30) [''x'']
     = (Inr (), public_dir (Json (history_document
          [history_entry (JInt 20) ''2024-10-05 13:10:00'', history_entry (JInt 30) ''2024-10-05 14:00:30'']
          [''x''])))"
    by code_simp
  have b: "lookup (Dir True []) history_path = None
        \<and> store (Dir True []) history_path Undecodable = Inr (public_dir Undecodable)
        \<and> four_cycles \<noteq> []"
    by code_simp
  have c: "drop (length four_cycles - nat 3) (map entry_of four_cycles)
       = [history_entry (JInt 20) ''2024-10-05 14:01:00'', history_entry (JInt 30) ''2024-10-05 14:02:00'',
          history_entry (JInt 40) ''2024-10-05 14:03:00'']"
    by code_simp
  have k2: "(1::int) \<le> 2" and k3: "(1::int) \<le> 3"
    by simp_all
  note t1 = rolling_history_capacity [OF k2, THEN conjunct1, THEN mp, OF a]
  note t2 = rolling_history_capacity [OF k3, THEN conjunct2, THEN mp, OF b]
  show ?thesis
    using a b c t1 t2 by blast
qed

text \<open>
  C4, as the specification words it for every capacity, fails at \<open>max_items = 0\<close>: the first
  write stores one entry, which is more than the capacity, and a write onto a history of two
  entries keeps all three (\<open>history[-0:]\<close> is the whole list).
\<close>

theorem rolling_history_capacity_counterexample:
  "truncate_file Accepting (Dir True []) (at_time 14 0 30) history_path 0 (JInt 10) [''x'']
     = (Inr (), public_dir (Json (history_document [history_entry (JInt 10) ''2024-10-05 14:00:30''] [''x''])))
   \<and> truncate_file Accepting (public_dir old_history) (at_time 14 0 30) history_path 0 (JInt 30) [''x'']
     = (Inr (), public_dir (Json (history_document
          [history_entry (JInt 10) ''2024-10-05 13:00:00'', history_entry (JInt 20) ''2024-10-05 13:10:00'',
           history_entry (JInt 30) ''2024-10-05 14:00:30''] [''x''])))
   \<and> stored_field (public_dir (Json (history_document [history_entry (JInt 10) ''2024-10-05 14:00:30''] [''x''])))
        history_path ''items'' = Some (JArr [history_entry (JInt 10) ''2024-10-05 14:00:30''])
   \<and> \<not> int (length [history_entry (JInt 10) ''2024-10-05 14:00:30'']) \<le> 0"
  by code_simp

text \<open>
  C7. After every successful write, the \<open>peers\<close> field of the stored document is exactly the
  list of peers given to this call, whatever the file held before.
\<close>

theorem peers_overwritten:
  assumes "truncate_file disk fs now file_path max_items new_sample peers = (Inr (), fs')"
  shows "stored_field fs' file_path ''peers'' = Some (JArr (map JStr peers))"
  using truncate_file_success [OF assms] stored_peers by blast

theorem peers_overwritten_witness:
  "truncate_file Accepting (public_dir old_history) (at_time 14 0 30) history_path 360 (JInt 30) [''x'', ''y'']
     = (Inr (), public_dir (Json (history_document
          [history_entry (JInt 10) ''2024-10-05 13:00:00'', history_entry (JInt 20) ''2024-10-05 13:10:00'',
           history_entry (JInt 30) ''2024-10-05 14:00:30'']
          [''x'', ''y''])))
   \<and> stored_field (public_dir old_history) history_path ''peers'' = Some (JArr [JStr ''old''])
   \<and> stored_field (public_dir (Json (history_document
          [history_entry (JInt 10) ''2024-10-05 13:00:00'', history_entry (JInt 20) ''2024-10-05 13:10:00'',
           history_entry (JInt 30) ''2024-10-05 14:00:30'']
          [''x'', ''y'']))) history_path ''peers'' = Some (JArr [JStr ''x'', JStr ''y''])"
proof -
  have a: "truncate_file Accepting (public_dir old_history) (at_time 14 0 30) history_path 360 (JInt 30) [''x'', ''y'']
     = (Inr (), public_dir (Json (history_document
          [history_entry (JInt 10) ''2024-10-05 13:00:00'', history_entry (JInt 20) ''2024-10-05 13:10:00'',
           history_entry (JInt 30) ''2024-10-05 14:00:30'']
          [''x'', ''y''])))"
    by code_simp
  have b: "stored_field (public_dir old_history) history_path ''peers'' = Some (JArr [JStr ''old''])"
    by code_simp
  show ?thesis
    using a b peers_overwritten [OF a] by simp
qed

text \<open>
  C6. When the output file exists and cannot be loaded (\<open>json.load\<close> raises on it: its text
  is not JSON, or its bytes are not text; or the path is a directory), or the decoded
  document has no \<open>items\<close>, \<open>truncate_file\<close> raises the exception of the failed step and
  leaves the file system as it was: it never starts a fresh history.
\<close>

theorem unreadable_history_fails:
  "(lookup fs file_path = Some (File (Unloadable x)) \<longrightarrow>
      truncate_file disk fs now file_path max_items new_sample peers = (Inl x, fs))
 \<and> (lookup fs file_path = Some (Dir r es) \<longrightarrow>
      truncate_file disk fs now file_path max_items new_sample peers = (Inl IsADirectoryError, fs))
 \<and> (lookup fs file_path = Some (File (Json v)) \<and> py_getitem v ''items'' = Inl e \<longrightarrow>
      truncate_file disk fs now file_path max_items new_sample peers = (Inl e, fs))"
  by (simp add: truncate_file_def new_history_def path_exists_def open_read_def json_load_def)

theorem unreadable_history_fails_witness:
  "lookup (public_dir Undecodable) history_path = Some (File Undecodable)
   \<and> truncate_file Accepting (public_dir Undecodable) (at_time 14 0 30) history_path 360 (JInt 30) [''x'']
       = (Inl JSONDecodeError, public_dir Undecodable)
   \<and> lookup (public_dir (Unloadable UnicodeDecodeError)) history_path
       = Some (File (Unloadable UnicodeDecodeError))
   \<and> truncate_file Accepting (public_dir (Unloadable UnicodeDecodeError)) (at_time 14 0 30)
        history_path 360 (JInt 30) [''x'']
       = (Inl UnicodeDecodeError, public_dir (Unloadable UnicodeDecodeError))
   \<and> lookup (Dir True [(''cpu_tracker.json'', Dir True [])]) history_path = Some (Dir True [])
   \<and> truncate_file Accepting (Dir True [(''cpu_tracker.json'', Dir True [])]) (at_time 14 0 30)
        history_path 360 (JInt 30) [''x'']
       = (Inl IsADirectoryError, Dir True [(''cpu_tracker.json'', Dir True [])])
   \<and> lookup (public_dir (Json (JObj []))) history_path = Some (File (Json (JObj [])))
   \<and> py_getitem (JObj []) ''items'' = Inl KeyError
   \<and> truncate_file Accepting (public_dir (Json (JObj []))) (at_time 14 0 30) history_path 360 (JInt 30) [''x'']
       = (Inl KeyError, public_dir (Json (JObj [])))"
proof -
  have a: "lookup (public_dir Undecodable) history_path = Some (File Undecodable)"
    by code_simp
  have u: "lookup (public_dir (Unloadable UnicodeDecodeError)) history_path
             = Some (File (Unloadable UnicodeDecodeError))"
    by code_simp
  have b: "lookup (Dir True [(''cpu_tracker.json'', Dir True [])]) history_path = Some (Dir True [])"
    by code_simp
  have c: "lookup (public_dir (Json (JObj []))) history_path = Some (File (Json (JObj [])))
           \<and> py_getitem (JObj []) ''items'' = Inl KeyError"
    by code_simp
  note t1 = unreadable_history_fails [THEN conjunct1, THEN mp, OF a]
  note t0 = unreadable_history_fails [THEN conjunct1, THEN mp, OF u]
  note t2 = unreadable_history_fails [THEN conjunct2, THEN conjunct1, THEN mp, OF b]
  note t3 = unreadable_history_fails [THEN conjunct2, THEN conjunct2, THEN mp, OF c]
  show ?thesis
    using a u b c t1 [of Accepting "at_time 14 0 30" 360 "JInt 30" "[''x'']"]
      t0 [of Accepting "at_time 14 0 30" 360 "JInt 30" "[''x'']"]
      t2 [of Accepting "at_time 14 0 30" 360 "JInt 30" "[''x'']"]
      t3 [of Accepting "at_time 14 0 30" 360 "JInt 30" "[''x'']"]
    by blast
qed

text \<open>
  C8, as the code has it. When a cycle fails with anything but a write refused by the
  operating system (the previous history does not load or parse, has no list of items, or
  the file cannot be opened for writing), the file system is left as it was. The file system
  is changed by a failed cycle only when the write itself is refused after the file was
  opened, and then the previous history is gone: the output file is left holding text that
  is not a JSON document.
\<close>

theorem failed_cycle_leaves_file:
  assumes "truncate_file disk fs now file_path max_items new_sample peers = (Inl e, fs')"
  shows "(e \<noteq> OSError \<longrightarrow> fs' = fs)
       \<and> (fs' \<noteq> fs \<longrightarrow>
            disk = RefusingWrite \<and> e = OSError \<and> lookup fs' file_path = Some (File Undecodable))"
proof (cases "new_history fs file_path max_items (history_entry new_sample (strftime now))")
  case (Inl x)
  with assms show ?thesis by (simp add: truncate_file_def)
next
  case (Inr history)
  show ?thesis
  proof (cases "store fs file_path Undecodable")
    case (Inl x)
    with assms Inr show ?thesis by (auto simp: truncate_file_def split: if_splits)
  next
    case opened: (Inr opened)
    have l: "lookup opened file_path = Some (File Undecodable)"
      using opened by (rule store_lookup)
    then obtain written where
      "store opened file_path (Json (history_document history peers)) = Inr written"
      using store_on_file by blast
    with assms Inr opened l show ?thesis
      by (cases disk) (auto simp: truncate_file_def)
  qed
qed

theorem failed_cycle_leaves_file_witness:
  "truncate_file Accepting (public_dir (Json (JArr []))) (at_time 14 0 30) history_path 360 (JInt 30) [''x'']
     = (Inl TypeError, public_dir (Json (JArr [])))
   \<and> TypeError \<noteq> OSError
   \<and> truncate_file RefusingOpen (public_dir old_history) (at_time 14 0 30) history_path 360 (JInt 30) [''x'']
     = (Inl PermissionError, public_dir old_history)
   \<and> PermissionError \<noteq> OSError
   \<and> truncate_file RefusingWrite (public_dir (Json (history_document [] []))) (at_time 14 0 30)
        history_path 360 (JInt 50) [''y'']
     = (Inl OSError, public_dir Undecodable)
   \<and> public_dir Undecodable \<noteq> public_dir (Json (history_document [] []))
   \<and> lookup (public_dir Undecodable) history_path = Some (File Undecodable)"
proof -
  have a: "truncate_file Accepting (public_dir (Json (JArr []))) (at_time 14 0 30) history_path 360 (JInt 30) [''x'']
     = (Inl TypeError, public_dir (Json (JArr [])))"
    by code_simp
  have b: "truncate_file RefusingWrite (public_dir (Json (history_document [] []))) (at_time 14 0 30)
        history_path 360 (JInt 50) [''y'']
     = (Inl OSError, public_dir Undecodable)"
    by code_simp
  have c: "public_dir Undecodable \<noteq> public_dir (Json (history_document [] []))"
    by (simp add: public_dir_def)
  have d: "truncate_file RefusingOpen (public_dir old_history) (at_time 14 0 30) history_path 360 (JInt 30) [''x'']
     = (Inl PermissionError, public_dir old_history)"
    by code_simp
  show ?thesis
    using a b c d failed_cycle_leaves_file [OF a] failed_cycle_leaves_file [OF b]
      failed_cycle_leaves_file [OF d]
    by simp
qed

text \<open>
  C8, as the specification words it, fails: when the operating system refuses the write, the
  file that held a valid history no longer holds it, because opening it for writing emptied
  it; what it holds instead is not a JSON document.
\<close>

theorem failed_write_counterexample:
  "truncate_file RefusingWrite (public_dir old_history) (at_time 14 0 30) history_path 360 (JInt 30) [''x'']
     = (Inl OSError, public_dir Undecodable)
   \<and> lookup (public_dir Undecodable) history_path \<noteq> lookup (public_dir old_history) history_path"
  by code_simp

end
